theory Spec2Isabelle
  imports Complex_Main
begin

section \<open>Numeric model and global parameters of sound.c\<close>

text \<open>
  The C code computes with \<open>float\<close> and \<open>double\<close>. The model computes with exact real
  numbers: rounding, overflow and underflow are not represented. A quotient whose divisor
  is zero is not a finite number in C (NaN or an infinity); the model reports it as
  \<open>None\<close>, and a comparison with it is false, as a comparison with NaN is in C.
\<close>

definition fdiv :: "real \<Rightarrow> real \<Rightarrow> real option" where
  "fdiv a b = (if b = 0 then None else Some (a / b))"

text \<open>
  The globals of sound.c that are assigned elsewhere in the program, and \<open>has_intro\<close>
  of main.h, are the fields of one record passed to every function.
\<close>

record globals =
  FRAMES_IN_RMS_FRAME :: nat
  RMS_FRAME_COUNT :: nat
  LONG_FRAME_COUNT :: nat
  RMS_FRAMES_IN_LONG_FRAME :: nat
  LOW_ENERGY_COEFFICIENT :: real
  UPPER_MUSIC_THRESHOLD :: real
  has_intro :: bool

definition RMS_FRAME_DURATION :: nat where
  "RMS_FRAME_DURATION = 20"

text \<open>
  Modelled from the spec: \<open>signum\<close> is declared in util.h, which is not among the sources;
  the spec gives it the values \<open>-1\<close>, \<open>0\<close> and \<open>+1\<close>.
\<close>

definition signum :: "real \<Rightarrow> int" where
  "signum x = (if x < 0 then - 1 else if x = 0 then 0 else 1)"

section \<open>calculate_rms\<close>

text \<open>
  The source file is a mono stream of samples. \<open>sf_readf_float\<close> of libsndfile hands over
  at most the requested number of frames and advances the stream; it returns the frames
  read and the rest of the stream.
\<close>

definition sf_readf_float :: "real list \<Rightarrow> nat \<Rightarrow> real list \<times> real list" where
  "sf_readf_float file k = (take k file, drop k file)"

text \<open>The inner loop: \<open>local_rms += pow(read_cache[frame], 2)\<close> over the frames read.\<close>

fun sum_squares :: "real list \<Rightarrow> real \<Rightarrow> real" where
  "sum_squares [] local_rms = local_rms"
| "sum_squares (x # cache) local_rms = sum_squares cache (local_rms + x ^ 2)"

text \<open>The outer loop, one iteration for each of the remaining RMS frames.\<close>

fun calculate_rms_loop :: "nat \<Rightarrow> nat \<Rightarrow> real list \<Rightarrow> real list" where
  "calculate_rms_loop 0 frames file = []"
| "calculate_rms_loop (Suc k) frames file =
     (case sf_readf_float file frames of
        (read_cache, rest) \<Rightarrow>
          sqrt (sum_squares read_cache 0 / real RMS_FRAME_DURATION)
            # calculate_rms_loop k frames rest)"

definition calculate_rms :: "globals \<Rightarrow> real list \<Rightarrow> real list" where
  "calculate_rms g file = calculate_rms_loop (RMS_FRAME_COUNT g) (FRAMES_IN_RMS_FRAME g) file"

section \<open>calculate_features\<close>

text \<open>The four output arrays hold one entry for each long frame.\<close>

record features =
  mean_rms :: "real option"
  variance_rms :: "real option"
  norm_variance_rms :: "real option"
  mler :: "real option"

text \<open>First inner loop: \<open>rms_sum += rms[current_rms_frame]\<close>.\<close>

definition block_sum :: "real list \<Rightarrow> nat \<Rightarrow> nat \<Rightarrow> real" where
  "block_sum rms start n = fold (\<lambda>i rms_sum. rms_sum + rms ! i) [start ..< start + n] 0"

text \<open>
  Second inner loop. Its state is the pair of \<open>variance_difference_sum\<close> and the running
  \<open>mler[long_frame]\<close>; the body adds the squared difference before and after the
  \<open>mler\<close> update, as lines 90 and 92 of the source do.
\<close>

definition variance_mler_step ::
  "real list \<Rightarrow> real \<Rightarrow> real \<Rightarrow> nat \<Rightarrow> real \<times> real \<Rightarrow> real \<times> real" where
  "variance_mler_step rms rms_sum lowthres i acc =
     (case acc of (variance_difference_sum, m) \<Rightarrow>
        (variance_difference_sum + (rms ! i - rms_sum) ^ 2 + (rms ! i - rms_sum) ^ 2,
         m + (real_of_int (signum (lowthres - rms ! i)) + 1)))"

definition variance_mler_loop ::
  "real list \<Rightarrow> real \<Rightarrow> real \<Rightarrow> nat \<Rightarrow> nat \<Rightarrow> real \<times> real" where
  "variance_mler_loop rms rms_sum lowthres start n =
     fold (variance_mler_step rms rms_sum lowthres) [start ..< start + n] (0, 0)"

text \<open>
  One iteration of the outer loop. The mean is not a finite number only when
  \<open>RMS_FRAMES_IN_LONG_FRAME\<close> is zero, and then the second loop has no iteration, so
  its state stays \<open>(0, 0)\<close>.
\<close>

definition long_frame_features :: "globals \<Rightarrow> real list \<Rightarrow> nat \<Rightarrow> features" where
  "long_frame_features g rms long_frame =
     (let n = RMS_FRAMES_IN_LONG_FRAME g;
          start_rms_frame = long_frame * n;
          rms_sum = block_sum rms start_rms_frame n;
          mean = fdiv rms_sum (real n);
          acc = (case mean of
                   None \<Rightarrow> (0, 0)
                 | Some mu \<Rightarrow>
                     variance_mler_loop rms rms_sum (LOW_ENERGY_COEFFICIENT g * mu)
                       start_rms_frame n);
          variance = fdiv (fst acc) (real n)
      in \<lparr> mean_rms = mean,
           variance_rms = variance,
           norm_variance_rms =
             (case (variance, mean) of
                (Some v, Some mu) \<Rightarrow> fdiv v mu
              | _ \<Rightarrow> None),
           mler = fdiv (snd acc) (real (2 * n)) \<rparr>)"

text \<open>
  The whole function. It reads \<open>rms\<close> up to index
  \<open>LONG_FRAME_COUNT * RMS_FRAMES_IN_LONG_FRAME - 1\<close>; a shorter array is read out of
  bounds, which C leaves undefined and the model reports as \<open>None\<close>.
\<close>

definition calculate_features :: "globals \<Rightarrow> real list \<Rightarrow> features list option" where
  "calculate_features g rms =
     (if length rms < LONG_FRAME_COUNT g * RMS_FRAMES_IN_LONG_FRAME g then None
      else Some (map (long_frame_features g rms) [0 ..< LONG_FRAME_COUNT g]))"

section \<open>classify_segments\<close>

definition classify_frame :: "globals \<Rightarrow> real option \<Rightarrow> bool" where
  "classify_frame g m =
     (case m of None \<Rightarrow> False | Some x \<Rightarrow> (if x \<le> UPPER_MUSIC_THRESHOLD g then True else False))"

text \<open>
  The loop labels \<open>LONG_FRAME_COUNT\<close> frames; an \<open>mler\<close> array with fewer entries is read
  out of bounds: \<open>None\<close>.
\<close>

definition classify_segments :: "globals \<Rightarrow> real option list \<Rightarrow> bool list option" where
  "classify_segments g mlers =
     (if length mlers < LONG_FRAME_COUNT g then None
      else Some (map (\<lambda>long_frame. classify_frame g (mlers ! long_frame))
                   [0 ..< LONG_FRAME_COUNT g]))"

section \<open>average_musicness\<close>

text \<open>
  \<open>rint\<close> of the C library in the default rounding mode: to the nearest integer, a tie
  to the even one.
\<close>

definition rint :: "real \<Rightarrow> int" where
  "rint x =
     (let f = \<lfloor>x\<rfloor>; d = x - real_of_int f
      in if d < 1 / 2 then f else if 1 / 2 < d then f + 1 else if even f then f else f + 1)"

text \<open>
  The sum of the seven labels around \<open>long_frame\<close>, each \<open>bool\<close> promoted to \<open>int\<close>.
\<close>

definition window_sum :: "bool list \<Rightarrow> nat \<Rightarrow> int" where
  "window_sum labels long_frame =
     of_bool (labels ! (long_frame - 3)) + of_bool (labels ! (long_frame - 2))
       + of_bool (labels ! (long_frame - 1)) + of_bool (labels ! long_frame)
       + of_bool (labels ! (long_frame + 1)) + of_bool (labels ! (long_frame + 2))
       + of_bool (labels ! (long_frame + 3))"

text \<open>
  The value stored for an interior frame: the sum is divided by \<open>5.0\<close>, rounded by
  \<open>rint\<close>, and converted to \<open>bool\<close> (nonzero is true). The sum is one of \<open>0, ..., 7\<close>,
  and none of the eight quotients is near a tie, so the rounding of the \<open>double\<close>
  quotient agrees with the rounding of the exact one.
\<close>

definition smooth_frame :: "bool list \<Rightarrow> nat \<Rightarrow> bool" where
  "smooth_frame labels long_frame = (rint (real_of_int (window_sum labels long_frame) / 5) \<noteq> 0)"

text \<open>
  \<open>music_second_pass\<close> is a fresh block of \<open>2 * LONG_FRAME_COUNT\<close> entries whose contents
  \<open>malloc\<close> leaves indeterminate; \<open>heap\<close> gives the value each entry happens to hold.
\<close>

definition malloc_bools :: "(nat \<Rightarrow> bool) \<Rightarrow> nat \<Rightarrow> bool list" where
  "malloc_bools heap k = map heap [0 ..< k]"

text \<open>The block after the writes of lines 120 to 129, in the order of the source.\<close>

definition second_pass :: "globals \<Rightarrow> (nat \<Rightarrow> bool) \<Rightarrow> bool list \<Rightarrow> bool list" where
  "second_pass g heap labels =
     (let n = LONG_FRAME_COUNT g;
          p0 = malloc_bools heap (2 * n);
          p1 = p0[0 := True, 1 := True, 2 := True];
          p2 = fold (\<lambda>long_frame p. p[long_frame := smooth_frame labels long_frame])
                 [3 ..< n - 3] p1
      in p2[n := False, n - 1 := False, n - 2 := False])"

text \<open>
  The function overwrites the first \<open>LONG_FRAME_COUNT\<close> labels with the block's entries.
  With \<open>LONG_FRAME_COUNT < 2\<close> index \<open>2\<close> or index \<open>LONG_FRAME_COUNT - 2\<close> lies outside
  the block, and a label array shorter than \<open>LONG_FRAME_COUNT\<close> is accessed out of bounds:
  both are undefined in C and \<open>None\<close> here.
\<close>

definition average_musicness :: "globals \<Rightarrow> (nat \<Rightarrow> bool) \<Rightarrow> bool list \<Rightarrow> bool list option" where
  "average_musicness g heap labels =
     (let n = LONG_FRAME_COUNT g
      in if n < 2 \<or> length labels < n then None
         else Some (map (\<lambda>long_frame. second_pass g heap labels ! long_frame) [0 ..< n]
                      @ drop n labels))"

text \<open>
  The smoother as the specification words it: the rounded average of the seven labels.
\<close>

definition smooth_frame_spec :: "bool list \<Rightarrow> nat \<Rightarrow> bool" where
  "smooth_frame_spec labels long_frame =
     (round (real_of_int (window_sum labels long_frame) / 7) \<noteq> 0)"

section \<open>merge_segments\<close>

text \<open>
  The \<open>segment\<close> structure of sound.h, with the three fields that sound.c uses.
\<close>

record segment =
  startframe :: int
  endframe :: int
  is_music :: bool

text \<open>
  Phase 1. The local array \<open>segments\<close> is the list of the entries written so far, and
  \<open>current_segment\<close> is the index of its last entry: \<open>segments[current_segment]\<close> is
  \<open>last segs\<close>, and the branch that increments \<open>current_segment\<close> appends an entry.
\<close>

definition detect_step :: "bool list \<Rightarrow> nat \<Rightarrow> segment list \<Rightarrow> segment list" where
  "detect_step labels long_frame segs =
     (if long_frame = 0 then [\<lparr> startframe = 0, endframe = 0, is_music = True \<rparr>]
      else if labels ! long_frame = is_music (last segs)
      then butlast segs @ [(last segs)\<lparr> endframe := endframe (last segs) + 1 \<rparr>]
      else segs @ [\<lparr> startframe = int long_frame, endframe = int long_frame,
                     is_music = labels ! long_frame \<rparr>])"

definition detect_segments :: "globals \<Rightarrow> bool list \<Rightarrow> segment list" where
  "detect_segments g labels = fold (detect_step labels) [0 ..< LONG_FRAME_COUNT g] []"

definition current_segment :: "segment list \<Rightarrow> nat" where
  "current_segment segs = length segs - 1"

text \<open>
  Phase 2. \<open>merged_segments\<close> is storage of the caller: the model gives every index a
  slot, and the slots hold whatever the caller left there.
\<close>

record merge_state =
  merged_segments :: "nat \<Rightarrow> segment"
  current_merged_segment :: nat

definition merge_step :: "globals \<Rightarrow> segment list \<Rightarrow> nat \<Rightarrow> merge_state \<Rightarrow> merge_state" where
  "merge_step g segs seg st =
     (let m = merged_segments st; c = current_merged_segment st
      in if seg = 0
         then let m1 = m(0 := (m 0)\<lparr> startframe := startframe (segs ! 0),
                                       endframe := endframe (segs ! 0) \<rparr>)
              in if has_intro g
                 then st\<lparr> merged_segments := m1(0 := (m1 0)\<lparr> is_music := False \<rparr>) \<rparr>
                 else st\<lparr> merged_segments := m1 \<rparr>
         else if endframe (segs ! seg) - startframe (segs ! seg) < 10
         then st\<lparr> merged_segments := m(c := (m c)\<lparr> endframe := endframe (segs ! seg) \<rparr>) \<rparr>
         else if is_music (segs ! seg) = is_music (m c)
         then st\<lparr> merged_segments := m(c := (m c)\<lparr> endframe := endframe (segs ! seg) \<rparr>) \<rparr>
         else st\<lparr> current_merged_segment := c + 1,
                   merged_segments :=
                     m(c + 1 := (m (c + 1))\<lparr> startframe := startframe (segs ! seg),
                                              endframe := endframe (segs ! seg),
                                              is_music := is_music (segs ! seg) \<rparr>) \<rparr>)"

text \<open>The loop \<open>for (seg = 0; seg < current_segment; seg++)\<close> up to a bound \<open>k\<close>.\<close>

definition merge_upto :: "globals \<Rightarrow> segment list \<Rightarrow> (nat \<Rightarrow> segment) \<Rightarrow> nat \<Rightarrow> merge_state" where
  "merge_upto g segs storage k =
     fold (merge_step g segs) [0 ..< k] \<lparr> merged_segments = storage, current_merged_segment = 0 \<rparr>"

definition merge_loop :: "globals \<Rightarrow> segment list \<Rightarrow> (nat \<Rightarrow> segment) \<Rightarrow> merge_state" where
  "merge_loop g segs storage = merge_upto g segs storage (current_segment segs)"

text \<open>The growth of the boundaries, lines 181 to 196.\<close>

definition GROW_BY_BEFORE :: int where
  "GROW_BY_BEFORE = 3"

definition GROW_BY_AFTER :: int where
  "GROW_BY_AFTER = 3"

definition grow_first :: "globals \<Rightarrow> (nat \<Rightarrow> segment) \<Rightarrow> (nat \<Rightarrow> segment)" where
  "grow_first g m =
     (if has_intro g then m(0 := (m 0)\<lparr> endframe := endframe (m 0) + GROW_BY_AFTER \<rparr>)
      else m(0 := (m 0)\<lparr> endframe := endframe (m 0) - GROW_BY_BEFORE \<rparr>))"

definition grow_step :: "nat \<Rightarrow> (nat \<Rightarrow> segment) \<Rightarrow> (nat \<Rightarrow> segment)" where
  "grow_step seg m =
     (if is_music (m seg)
      then m(seg := (m seg)\<lparr> startframe := startframe (m seg) + GROW_BY_BEFORE,
                              endframe := endframe (m seg) - GROW_BY_AFTER \<rparr>)
      else m(seg := (m seg)\<lparr> startframe := startframe (m seg) - GROW_BY_BEFORE,
                              endframe := endframe (m seg) + GROW_BY_AFTER \<rparr>))"

definition grow_segments :: "globals \<Rightarrow> segment list \<Rightarrow> (nat \<Rightarrow> segment) \<Rightarrow> (nat \<Rightarrow> segment)" where
  "grow_segments g segs m = fold grow_step [1 ..< current_segment segs] (grow_first g m)"

text \<open>
  The whole function returns the storage as it leaves it and the integer it returns.
  A label array shorter than \<open>LONG_FRAME_COUNT\<close> is read out of bounds: \<open>None\<close>.
\<close>

definition merge_segments ::
  "globals \<Rightarrow> bool list \<Rightarrow> (nat \<Rightarrow> segment) \<Rightarrow> ((nat \<Rightarrow> segment) \<times> int) option" where
  "merge_segments g labels storage =
     (if length labels < LONG_FRAME_COUNT g then None
      else let segs = detect_segments g labels;
               st = merge_loop g segs storage
           in Some (grow_segments g segs (merged_segments st), int (current_merged_segment st)))"

text \<open>
  The long frames of one segment, and of the first \<open>k\<close> slots of a storage in order.
\<close>

definition segment_frames :: "segment \<Rightarrow> int list" where
  "segment_frames s = [startframe s .. endframe s]"

definition covered_frames :: "(nat \<Rightarrow> segment) \<Rightarrow> nat \<Rightarrow> int list" where
  "covered_frames m k = concat (map (\<lambda>i. segment_frames (m i)) [0 ..< k])"

section \<open>The formulas of the specification\<close>

text \<open>The RMS values that a long frame owns.\<close>

definition long_frame_block :: "globals \<Rightarrow> real list \<Rightarrow> nat \<Rightarrow> real list" where
  "long_frame_block g rms long_frame =
     take (RMS_FRAMES_IN_LONG_FRAME g) (drop (long_frame * RMS_FRAMES_IN_LONG_FRAME g) rms)"

text \<open>
  The Modified Low Energy Ratio as the specification words it: the sum over the block of
  \<open>sign (low_threshold - v) + 1\<close>, divided by twice the block size.
\<close>

definition mler_spec :: "real \<Rightarrow> real list \<Rightarrow> real" where
  "mler_spec coefficient block =
     (let mean = sum_list block / real (length block);
          low_threshold = coefficient * mean
      in (\<Sum>v\<leftarrow>block. real_of_int (signum (low_threshold - v)) + 1) / (2 * real (length block)))"

text \<open>
  The variance as the specification words it: every squared deviation from the block's
  raw sum counted once, the total divided by the block size.
\<close>

definition variance_spec :: "real list \<Rightarrow> real" where
  "variance_spec block = (\<Sum>v\<leftarrow>block. (v - sum_list block) ^ 2) / real (length block)"

text \<open>
  Phase 2 as the specification words it. The length of a run counts its long frames; a
  run is absorbed by extending the end of the current merged segment, or starts a new
  merged segment that carries the run's start, end and label.
\<close>

definition run_length :: "segment \<Rightarrow> int" where
  "run_length s = endframe s - startframe s + 1"

definition absorb_run :: "merge_state \<Rightarrow> segment \<Rightarrow> merge_state" where
  "absorb_run st s =
     st\<lparr> merged_segments :=
           (merged_segments st)
             (current_merged_segment st :=
                (merged_segments st (current_merged_segment st))\<lparr> endframe := endframe s \<rparr>) \<rparr>"

definition start_merged_segment :: "merge_state \<Rightarrow> segment \<Rightarrow> merge_state" where
  "start_merged_segment st s =
     st\<lparr> current_merged_segment := current_merged_segment st + 1,
         merged_segments := (merged_segments st)(current_merged_segment st + 1 := s) \<rparr>"

definition merge_run_spec :: "merge_state \<Rightarrow> segment \<Rightarrow> merge_state" where
  "merge_run_spec st s =
     (if run_length s < 10 then absorb_run st s
      else if is_music s = is_music (merged_segments st (current_merged_segment st))
      then absorb_run st s
      else start_merged_segment st s)"

section \<open>Concrete configurations and inputs\<close>

text \<open>A small configuration: two samples in an RMS frame, two RMS frames in a long frame.\<close>

definition small_globals :: globals where
  "small_globals = \<lparr> FRAMES_IN_RMS_FRAME = 2, RMS_FRAME_COUNT = 4, LONG_FRAME_COUNT = 2,
                      RMS_FRAMES_IN_LONG_FRAME = 2, LOW_ENERGY_COEFFICIENT = 1 / 5,
                      UPPER_MUSIC_THRESHOLD = 0, has_intro = False \<rparr>"

text \<open>
  A recording of \<open>k\<close> seconds at 44100 Hz with the durations and thresholds of the
  source: 882 samples in an RMS frame of 20 ms, 50 RMS frames in a long frame of 1000 ms.
\<close>

definition long_frames :: "nat \<Rightarrow> bool \<Rightarrow> globals" where
  "long_frames k intro =
     \<lparr> FRAMES_IN_RMS_FRAME = 882, RMS_FRAME_COUNT = 50 * k, LONG_FRAME_COUNT = k,
       RMS_FRAMES_IN_LONG_FRAME = 50, LOW_ENERGY_COEFFICIENT = 1 / 5,
       UPPER_MUSIC_THRESHOLD = 0, has_intro = intro \<rparr>"

text \<open>
  Label sequences: music, then speech to the end; music, a short speech break, music,
  speech to the end; and three more.
\<close>

definition labels15 :: "bool list" where
  "labels15 = replicate 12 True @ replicate 3 False"

definition labels30 :: "bool list" where
  "labels30 = replicate 12 True @ replicate 3 False @ replicate 12 True @ replicate 3 False"

definition labels19 :: "bool list" where
  "labels19 = replicate 3 True @ replicate 3 False @ replicate 10 True @ replicate 3 False"

definition labels17 :: "bool list" where
  "labels17 = replicate 3 True @ replicate 11 False @ replicate 3 True"

definition labels7 :: "bool list" where
  "labels7 = [False, False, True, True, True, False, False]"

text \<open>Caller storage whose slots all carry the label \<open>b\<close>.\<close>

definition blank_storage :: "bool \<Rightarrow> nat \<Rightarrow> segment" where
  "blank_storage b = (\<lambda>_. \<lparr> startframe = 0, endframe = 0, is_music = b \<rparr>)"

section \<open>IEEE 754 arithmetic\<close>

text \<open>
  The functions below compute as the machine does: every operation on \<open>float\<close> and
  \<open>double\<close> values yields the exact result rounded to the nearest representable value,
  a tie to the one with an even significand, with gradual underflow, overflow to an
  infinity, signed zeros and NaN. A format is given by the number of bits of its
  significand and the exponents of its smallest and largest normal binades.
\<close>

record fformat =
  precision :: nat
  emin :: int
  emax :: int

definition binary32 :: fformat where
  "binary32 = \<lparr> precision = 24, emin = - 126, emax = 127 \<rparr>"

definition binary64 :: fformat where
  "binary64 = \<lparr> precision = 53, emin = - 1022, emax = 1023 \<rparr>"

text \<open>
  A value is finite, with a sign (true for minus) and a magnitude, or an infinity with a
  sign, or NaN.
\<close>

datatype fp = Finite bool real | Infinity bool | NaN

fun valof :: "fp \<Rightarrow> real" where
  "valof (Finite s m) = (if s then - m else m)"
| "valof (Infinity s) = 0"
| "valof NaN = 0"

text \<open>The binary logarithm of a positive natural number, rounded down.\<close>

fun log2_nat :: "nat \<Rightarrow> nat" where
  "log2_nat n = (if n < 2 then 0 else Suc (log2_nat (n div 2)))"

declare log2_nat.simps [simp del]

text \<open>The exponent \<open>e\<close> of the binade of a positive real: \<open>2\<^sup>e \<le> x < 2\<^sup>e\<^sup>+\<^sup>1\<close>.\<close>

definition ilog2 :: "real \<Rightarrow> int" where
  "ilog2 x =
     (if 1 \<le> x then int (log2_nat (nat \<lfloor>x\<rfloor>))
      else - int (log2_nat (nat (\<lceil>1 / x\<rceil> - 1))) - 1)"

text \<open>
  The spacing of the representable values around a positive real: below the smallest
  normal binade it stays that of the binade \<open>emin\<close>.
\<close>

definition ulp :: "fformat \<Rightarrow> real \<Rightarrow> real" where
  "ulp F x = 2 powi (max (ilog2 x) (emin F) - int (precision F) + 1)"

text \<open>A positive real rounded to the nearest multiple of the spacing, a tie to even.\<close>

definition round_magnitude :: "fformat \<Rightarrow> real \<Rightarrow> real" where
  "round_magnitude F x = real_of_int (rint (x / ulp F x)) * ulp F x"

text \<open>The largest finite value of a format.\<close>

definition fmax :: "fformat \<Rightarrow> real" where
  "fmax F = (2 - 2 powi (1 - int (precision F))) * 2 powi (emax F)"

text \<open>
  The rounding of a nonzero exact result with the sign \<open>neg\<close> and the magnitude
  \<open>x\<close>; and of any exact result, where a zero takes the sign the operation prescribes.
\<close>

definition fround :: "fformat \<Rightarrow> bool \<Rightarrow> real \<Rightarrow> fp" where
  "fround F neg x =
     (let r = round_magnitude F x in if fmax F < r then Infinity neg else Finite neg r)"

definition round_real :: "fformat \<Rightarrow> bool \<Rightarrow> real \<Rightarrow> fp" where
  "round_real F zero_neg x = (if x = 0 then Finite zero_neg 0 else fround F (x < 0) \<bar>x\<bar>)"

text \<open>Conversion of a C \<open>int\<close>, and of a value of another format.\<close>

definition fp_of_int :: "fformat \<Rightarrow> int \<Rightarrow> fp" where
  "fp_of_int F k = round_real F False (real_of_int k)"

fun fcvt :: "fformat \<Rightarrow> fp \<Rightarrow> fp" where
  "fcvt F (Finite s m) = round_real F s (valof (Finite s m))"
| "fcvt F (Infinity s) = Infinity s"
| "fcvt F NaN = NaN"

text \<open>
  Addition. An exact zero sum is \<open>-0\<close> only when both operands are negative (both
  \<open>-0\<close>); infinities of opposite sign give NaN.
\<close>

fun fadd :: "fformat \<Rightarrow> fp \<Rightarrow> fp \<Rightarrow> fp" where
  "fadd F NaN b = NaN"
| "fadd F a NaN = NaN"
| "fadd F (Infinity s) (Infinity t) = (if s = t then Infinity s else NaN)"
| "fadd F (Infinity s) (Finite t n) = Infinity s"
| "fadd F (Finite s m) (Infinity t) = Infinity t"
| "fadd F (Finite s m) (Finite t n) =
     round_real F (s \<and> t) (valof (Finite s m) + valof (Finite t n))"



text \<open>Multiplication: the sign is the exclusive or; infinity times zero is NaN.\<close>

fun fmul :: "fformat \<Rightarrow> fp \<Rightarrow> fp \<Rightarrow> fp" where
  "fmul F NaN b = NaN"
| "fmul F a NaN = NaN"
| "fmul F (Infinity s) (Infinity t) = Infinity (s \<noteq> t)"
| "fmul F (Infinity s) (Finite t n) = (if n = 0 then NaN else Infinity (s \<noteq> t))"
| "fmul F (Finite s m) (Infinity t) = (if m = 0 then NaN else Infinity (s \<noteq> t))"
| "fmul F (Finite s m) (Finite t n) = round_real F (s \<noteq> t) (valof (Finite s m) * valof (Finite t n))"

text \<open>
  Division: zero by zero and infinity by infinity are NaN, a nonzero value by zero is an
  infinity, a finite value by an infinity is a zero.
\<close>

fun fdiv_ieee :: "fformat \<Rightarrow> fp \<Rightarrow> fp \<Rightarrow> fp" where
  "fdiv_ieee F NaN b = NaN"
| "fdiv_ieee F a NaN = NaN"
| "fdiv_ieee F (Infinity s) (Infinity t) = NaN"
| "fdiv_ieee F (Infinity s) (Finite t n) = Infinity (s \<noteq> t)"
| "fdiv_ieee F (Finite s m) (Infinity t) = Finite (s \<noteq> t) 0"
| "fdiv_ieee F (Finite s m) (Finite t n) =
     (if n = 0 then (if m = 0 then NaN else Infinity (s \<noteq> t))
      else round_real F (s \<noteq> t) (valof (Finite s m) / valof (Finite t n)))"

text \<open>Square root: of a negative value NaN, of a zero that zero.\<close>

fun fsqrt :: "fformat \<Rightarrow> fp \<Rightarrow> fp" where
  "fsqrt F NaN = NaN"
| "fsqrt F (Infinity s) = (if s then NaN else Infinity False)"
| "fsqrt F (Finite s m) =
     (if m = 0 then Finite s 0 else if s then NaN else fround F False (sqrt m))"


section \<open>calculate_rms and calculate_features in IEEE 754 arithmetic\<close>

text \<open>
  The same two functions with the arithmetic of the machine. The samples and the RMS
  values are \<open>float\<close> (binary32); \<open>local_rms\<close> is \<open>double\<close> (binary64), and so are the
  arguments and the result of \<open>pow\<close> and \<open>sqrt\<close>. A \<open>float\<close> converts to \<open>double\<close>
  without change; a \<open>double\<close> stored into a \<open>float\<close> is rounded. \<open>pow (x, 2)\<close> is the
  square of \<open>x\<close> rounded to \<open>double\<close>.
\<close>

fun sum_squares_ieee :: "fp list \<Rightarrow> fp \<Rightarrow> fp" where
  "sum_squares_ieee [] local_rms = local_rms"
| "sum_squares_ieee (x # cache) local_rms =
     sum_squares_ieee cache (fadd binary64 local_rms (fmul binary64 x x))"

text \<open>
  One RMS frame from the frames read: \<open>local_rms = 0\<close>, the inner loop,
  \<open>sqrt (local_rms / RMS_FRAME_DURATION)\<close> in \<open>double\<close>, and the store into \<open>rms\<close>.
\<close>

definition rms_of_window :: "fp list \<Rightarrow> fp" where
  "rms_of_window read_cache =
     fcvt binary32
       (fsqrt binary64
          (fdiv_ieee binary64 (sum_squares_ieee read_cache (Finite False 0))
             (fp_of_int binary64 (int RMS_FRAME_DURATION))))"

fun calculate_rms_loop_ieee :: "nat \<Rightarrow> nat \<Rightarrow> fp list \<Rightarrow> fp list" where
  "calculate_rms_loop_ieee 0 frames samples = []"
| "calculate_rms_loop_ieee (Suc k) frames samples =
     rms_of_window (take frames samples) # calculate_rms_loop_ieee k frames (drop frames samples)"

definition calculate_rms_ieee :: "globals \<Rightarrow> fp list \<Rightarrow> fp list" where
  "calculate_rms_ieee g samples =
     calculate_rms_loop_ieee (RMS_FRAME_COUNT g) (FRAMES_IN_RMS_FRAME g) samples"









text \<open>Multiplication of a value by a real scalar, exactly.\<close>

fun fscale :: "real \<Rightarrow> fp \<Rightarrow> fp" where
  "fscale k (Finite s m) = Finite s (k * m)"
| "fscale k (Infinity s) = Infinity s"
| "fscale k NaN = NaN"

text \<open>Two samples of a recording, and the same samples three times as loud.\<close>

definition quiet_samples :: "fp list" where
  "quiet_samples = [Finite False 3, Finite True 4]"

definition loud_samples :: "fp list" where
  "loud_samples = [Finite False 9, Finite True 12]"

text \<open>One RMS frame of two samples.\<close>

definition one_window_globals :: globals where
  "one_window_globals = \<lparr> FRAMES_IN_RMS_FRAME = 2, RMS_FRAME_COUNT = 1, LONG_FRAME_COUNT = 0,
                           RMS_FRAMES_IN_LONG_FRAME = 50, LOW_ENERGY_COEFFICIENT = 1 / 5,
                           UPPER_MUSIC_THRESHOLD = 0, has_intro = False \<rparr>"



section \<open>The sum of squares of one window\<close>

lemma sum_squares_acc: "sum_squares xs a = a + (\<Sum>x\<leftarrow>xs. x ^ 2)"
  by (induction xs arbitrary: a) simp_all

section \<open>The features of a long frame\<close>

lemma nth_block:
  "start + n \<le> length rms \<Longrightarrow> map ((!) rms) [start ..< start + n] = take n (drop start rms)"
  by (simp add: list_eq_iff_nth_eq)

lemma block_sum_eq:
  assumes "start + n \<le> length rms"
  shows "block_sum rms start n = sum_list (take n (drop start rms))"
proof -
  have "fold (\<lambda>i s. s + rms ! i) is a = a + sum_list (map ((!) rms) is)" for "is" a
    by (induction "is" arbitrary: a) simp_all
  then show ?thesis
    unfolding block_sum_def using nth_block [OF assms] by simp
qed

lemma variance_mler_fold:
  "fold (variance_mler_step rms s t) is (a, b)
   = (a + 2 * (\<Sum>v\<leftarrow>map ((!) rms) is. (v - s) ^ 2),
      b + (\<Sum>v\<leftarrow>map ((!) rms) is. real_of_int (signum (t - v)) + 1))"
  by (induction "is" arbitrary: a b) (simp_all add: variance_mler_step_def comp_def)

lemma variance_mler_loop_eq:
  assumes "start + n \<le> length rms"
  shows "variance_mler_loop rms s t start n
   = (2 * (\<Sum>v\<leftarrow>take n (drop start rms). (v - s) ^ 2),
      (\<Sum>v\<leftarrow>take n (drop start rms). real_of_int (signum (t - v)) + 1))"
  unfolding variance_mler_loop_def variance_mler_fold using nth_block [OF assms] by simp

lemma length_long_frame_block:
  "(long_frame + 1) * RMS_FRAMES_IN_LONG_FRAME g \<le> length rms \<Longrightarrow>
   length (long_frame_block g rms long_frame) = RMS_FRAMES_IN_LONG_FRAME g"
  by (simp add: long_frame_block_def)

text \<open>
  What one iteration of the outer loop stores, in terms of the block: the variance is
  twice the sum of squared deviations from the raw sum, divided by the block size.
\<close>

lemma long_frame_features_eq:
  assumes n: "0 < RMS_FRAMES_IN_LONG_FRAME g"
    and len: "(long_frame + 1) * RMS_FRAMES_IN_LONG_FRAME g \<le> length rms"
  shows "long_frame_features g rms long_frame =
    \<lparr> mean_rms = Some (sum_list (long_frame_block g rms long_frame)
                        / real (RMS_FRAMES_IN_LONG_FRAME g)),
      variance_rms = Some (2 * variance_spec (long_frame_block g rms long_frame)),
      norm_variance_rms =
        fdiv (2 * variance_spec (long_frame_block g rms long_frame))
          (sum_list (long_frame_block g rms long_frame) / real (RMS_FRAMES_IN_LONG_FRAME g)),
      mler = Some (mler_spec (LOW_ENERGY_COEFFICIENT g) (long_frame_block g rms long_frame)) \<rparr>"
proof -
  have b: "long_frame * RMS_FRAMES_IN_LONG_FRAME g + RMS_FRAMES_IN_LONG_FRAME g \<le> length rms"
    using len by simp
  show ?thesis
    using n length_long_frame_block [OF len]
    by (simp add: long_frame_features_def Let_def block_sum_eq [OF b] variance_mler_loop_eq [OF b]
        fdiv_def variance_spec_def mler_spec_def long_frame_block_def)
qed

lemma mler_terms_range:
  "0 \<le> (\<Sum>v\<leftarrow>block. real_of_int (signum (t - v)) + 1)
   \<and> (\<Sum>v\<leftarrow>block. real_of_int (signum (t - v)) + 1) \<le> 2 * real (length block)"
  by (induction block) (auto simp: signum_def)

lemma mler_spec_range:
  "0 \<le> mler_spec coefficient block \<and> mler_spec coefficient block \<le> 1"
proof (cases "block = []")
  case True
  then show ?thesis by (simp add: mler_spec_def)
next
  case False
  then have pos: "0 < 2 * real (length block)" by simp
  show ?thesis
    unfolding mler_spec_def Let_def
    using mler_terms_range [of _ block] pos
    by (simp add: divide_le_eq)
qed

text \<open>
  Claim C3. The claim has every squared deviation from the raw sum counted once. The loop
  body adds it twice (lines 90 and 92), so the stored variance is twice the claimed one.
  On one second of constant RMS value 1 (50 RMS frames, raw sum 50, each squared deviation
  \<open>49\<^sup>2 = 2401\<close>) the code stores 4802 where the claimed formula gives 2401.
\<close>

theorem variance_counts_each_deviation_twice:
  "variance_rms (long_frame_features (long_frames 1 False) (replicate 50 1) 0) = Some 4802
   \<and> variance_spec (long_frame_block (long_frames 1 False) (replicate 50 1) 0) = 2401"
proof -
  have n: "0 < RMS_FRAMES_IN_LONG_FRAME (long_frames 1 False)"
    by (simp add: long_frames_def)
  have len: "(0 + 1) * RMS_FRAMES_IN_LONG_FRAME (long_frames 1 False)
             \<le> length (replicate 50 (1::real))"
    by (simp add: long_frames_def)
  have blk: "long_frame_block (long_frames 1 False) (replicate 50 1) 0 = replicate 50 1"
    by (simp add: long_frame_block_def long_frames_def)
  have v: "variance_spec (replicate 50 1) = 2401"
    by (simp add: variance_spec_def sum_list_replicate)
  have f: "variance_rms (long_frame_features (long_frames 1 False) (replicate 50 1) 0)
           = Some (2 * variance_spec (long_frame_block (long_frames 1 False) (replicate 50 1) 0))"
    unfolding long_frame_features_eq [OF n len] by simp
  show ?thesis
    unfolding f blk v by simp
qed

section \<open>Silence\<close>

lemma silent_squares: "\<forall>x\<in>set xs. x = 0 \<Longrightarrow> (\<Sum>x\<leftarrow>xs. x ^ 2) = (0::real)"
  by (induction xs) simp_all

lemma calculate_rms_loop_silence:
  "\<forall>x\<in>set samples. x = 0 \<Longrightarrow> calculate_rms_loop k frames samples = replicate k 0"
proof (induction k arbitrary: samples)
  case 0
  show ?case by simp
next
  case (Suc k)
  have t: "\<forall>x\<in>set (take frames samples). x = 0"
    using Suc.prems by (auto dest: in_set_takeD)
  have d: "\<forall>x\<in>set (drop frames samples). x = 0"
    using Suc.prems by (auto dest: in_set_dropD)
  have "(\<Sum>x\<leftarrow>take frames samples. x ^ 2) = 0"
    using t by (rule silent_squares)
  then show ?case
    using Suc.IH [OF d] by (simp add: sf_readf_float_def sum_squares_acc)
qed

lemma silent_block:
  "(long_frame + 1) * n \<le> k \<Longrightarrow>
   take n (drop (long_frame * n) (replicate k (0::real))) = replicate n 0"
  by (simp add: min_def)

lemma silent_long_frame:
  assumes n: "0 < RMS_FRAMES_IN_LONG_FRAME g"
    and len: "(long_frame + 1) * RMS_FRAMES_IN_LONG_FRAME g \<le> k"
  shows "mler (long_frame_features g (replicate k 0) long_frame) = Some (1 / 2)"
    and "norm_variance_rms (long_frame_features g (replicate k 0) long_frame) = None"
proof -
  have len': "(long_frame + 1) * RMS_FRAMES_IN_LONG_FRAME g \<le> length (replicate k (0::real))"
    using len by simp
  have blk: "long_frame_block g (replicate k 0) long_frame
             = replicate (RMS_FRAMES_IN_LONG_FRAME g) 0"
    unfolding long_frame_block_def using silent_block [OF len] .
  have "mler_spec (LOW_ENERGY_COEFFICIENT g) (replicate (RMS_FRAMES_IN_LONG_FRAME g) 0) = 1 / 2"
    using n by (simp add: mler_spec_def signum_def sum_list_replicate)
  then show "mler (long_frame_features g (replicate k 0) long_frame) = Some (1 / 2)"
    using long_frame_features_eq [OF n len'] by (simp add: blk)
  show "norm_variance_rms (long_frame_features g (replicate k 0) long_frame) = None"
    using long_frame_features_eq [OF n len'] by (simp add: blk fdiv_def sum_list_replicate)
qed

text \<open>
  Claim C6. When every sample is zero, \<open>RMS_FRAMES_IN_LONG_FRAME\<close> is positive, the RMS
  array holds the blocks of all long frames and the music threshold is 0,
  \<open>calculate_features\<close> on the output of \<open>calculate_rms\<close> stores the finite MLER value
  \<open>1/2\<close> for every long frame (each of the RMS values equals the threshold 0, so each adds
  \<open>signum 0 + 1 = 1\<close>), and \<open>classify_segments\<close> labels every long frame \<open>false\<close>. The
  quotient by the zero mean only enters the normalised variance, which is not a finite
  number and which no label reads.
\<close>

theorem silence_gets_defined_labels:
  assumes "\<forall>x\<in>set samples. x = 0"
    and "0 < RMS_FRAMES_IN_LONG_FRAME g"
    and "LONG_FRAME_COUNT g * RMS_FRAMES_IN_LONG_FRAME g \<le> RMS_FRAME_COUNT g"
    and "UPPER_MUSIC_THRESHOLD g = 0"
  shows "\<exists>fs. calculate_features g (calculate_rms g samples) = Some fs
           \<and> map mler fs = replicate (LONG_FRAME_COUNT g) (Some (1 / 2))
           \<and> classify_segments g (map mler fs) = Some (replicate (LONG_FRAME_COUNT g) False)
           \<and> map norm_variance_rms fs = replicate (LONG_FRAME_COUNT g) None"
proof -
  let ?rms = "replicate (RMS_FRAME_COUNT g) (0::real)"
  let ?fs = "map (long_frame_features g ?rms) [0 ..< LONG_FRAME_COUNT g]"
  have rms: "calculate_rms g samples = ?rms"
    using assms(1) by (simp add: calculate_rms_def calculate_rms_loop_silence)
  have cf: "calculate_features g ?rms = Some ?fs"
    using assms(3) by (simp add: calculate_features_def)
  have inside: "(i + 1) * RMS_FRAMES_IN_LONG_FRAME g \<le> RMS_FRAME_COUNT g"
    if "i < LONG_FRAME_COUNT g" for i
  proof -
    have "(i + 1) * RMS_FRAMES_IN_LONG_FRAME g \<le> LONG_FRAME_COUNT g * RMS_FRAMES_IN_LONG_FRAME g"
      using that by (intro mult_le_mono1) simp
    then show ?thesis using assms(3) by (rule le_trans)
  qed
  have ml: "map mler ?fs = replicate (LONG_FRAME_COUNT g) (Some (1 / 2))"
    using silent_long_frame(1) [OF assms(2) inside] by (simp add: list_eq_iff_nth_eq)
  have nv: "map norm_variance_rms ?fs = replicate (LONG_FRAME_COUNT g) None"
    using silent_long_frame(2) [OF assms(2) inside] by (simp add: list_eq_iff_nth_eq)
  have cl: "classify_segments g (replicate (LONG_FRAME_COUNT g) (Some (1 / 2)))
            = Some (replicate (LONG_FRAME_COUNT g) False)"
    using assms(4) by (simp add: classify_segments_def classify_frame_def list_eq_iff_nth_eq)
  show ?thesis
    using rms cf ml cl nv by simp
qed

theorem silence_gets_defined_labels_witness:
  "set (replicate 8 (0::real)) = {0}
   \<and> 0 < RMS_FRAMES_IN_LONG_FRAME small_globals
   \<and> LONG_FRAME_COUNT small_globals * RMS_FRAMES_IN_LONG_FRAME small_globals
       \<le> RMS_FRAME_COUNT small_globals
   \<and> UPPER_MUSIC_THRESHOLD small_globals = 0
   \<and> (\<exists>fs. calculate_features small_globals (calculate_rms small_globals (replicate 8 0)) = Some fs
           \<and> map mler fs = [Some (1 / 2), Some (1 / 2)]
           \<and> classify_segments small_globals (map mler fs) = Some [False, False]
           \<and> map norm_variance_rms fs = [None, None])"
  using silence_gets_defined_labels [of "replicate 8 0" small_globals]
  by (simp add: small_globals_def numeral_2_eq_2)

section \<open>The smoother\<close>

lemma fold_update_length: "length (fold (\<lambda>i p. p[i := f i]) is p) = length p"
  by (induction "is" arbitrary: p) simp_all

lemma fold_update_nth:
  "j < length p \<Longrightarrow> fold (\<lambda>i p. p[i := f i]) is p ! j = (if j \<in> set is then f j else p ! j)"
proof (induction "is" arbitrary: p)
  case Nil
  show ?case by simp
next
  case (Cons i "is")
  have "j < length (p[i := f i])" using Cons.prems by simp
  from Cons.IH [OF this] show ?case
    using Cons.prems by (auto simp: nth_list_update)
qed

text \<open>
  Every entry of the block after the writes, for at least seven long frames: the entries
  \<open>LONG_FRAME_COUNT - 3\<close> and those above \<open>LONG_FRAME_COUNT\<close> keep what the allocation held.
\<close>

lemma second_pass_nth:
  assumes n: "7 \<le> LONG_FRAME_COUNT g" and j: "j < 2 * LONG_FRAME_COUNT g"
  shows "second_pass g heap labels ! j =
     (if j = LONG_FRAME_COUNT g \<or> j = LONG_FRAME_COUNT g - 1 \<or> j = LONG_FRAME_COUNT g - 2
      then False
      else if 3 \<le> j \<and> j < LONG_FRAME_COUNT g - 3 then smooth_frame labels j
      else if j < 3 then True
      else heap j)"
  using assms
  by (auto simp: second_pass_def Let_def malloc_bools_def fold_update_length fold_update_nth
      nth_list_update)

lemma window_sum_range: "0 \<le> window_sum labels i \<and> window_sum labels i \<le> 7"
  by (simp add: window_sum_def of_bool_def)

text \<open>
  The stored interior label is true exactly when at least three of the seven labels are
  true; the rounded average of the seven is true exactly when at least four are.
\<close>

lemma smooth_frame_iff: "smooth_frame labels i = (3 \<le> window_sum labels i)"
proof -
  consider "window_sum labels i = 0" | "window_sum labels i = 1" | "window_sum labels i = 2"
    | "window_sum labels i = 3" | "window_sum labels i = 4" | "window_sum labels i = 5"
    | "window_sum labels i = 6" | "window_sum labels i = 7"
    using window_sum_range [of labels i] by arith
  then show ?thesis
    by cases (simp_all add: smooth_frame_def rint_def)
qed

lemma smooth_frame_spec_iff: "smooth_frame_spec labels i = (4 \<le> window_sum labels i)"
proof -
  consider "window_sum labels i = 0" | "window_sum labels i = 1" | "window_sum labels i = 2"
    | "window_sum labels i = 3" | "window_sum labels i = 4" | "window_sum labels i = 5"
    | "window_sum labels i = 6" | "window_sum labels i = 7"
    using window_sum_range [of labels i] by arith
  then show ?thesis
    by cases (simp_all add: smooth_frame_spec_def round_def)
qed

text \<open>
  Claim C2. The claim has every interior label set to the rounded average of the seven
  labels around it and the three trailing labels forced to false. On seven long frames with
  the labels \<open>F F T T T F F\<close> the only interior index is 3, where three of the seven labels
  are true: the rounded average \<open>round (3/7)\<close> is 0, but the code stores
  \<open>rint (3/5.0) = 1\<close>, true. The label at index \<open>7 - 3 = 4\<close> is not forced to false: it is
  whatever the allocated block held there.
\<close>

theorem smoother_divides_by_five:
  "average_musicness (long_frames 7 False) heap labels7
     = Some [True, True, True, True, heap 4, False, False]
   \<and> smooth_frame_spec labels7 3 = False"
  by (simp add: average_musicness_def second_pass_def Let_def malloc_bools_def long_frames_def
      smooth_frame_def smooth_frame_spec_def window_sum_def rint_def round_def labels7_def
      upt_rec [of _ "numeral _"] eval_nat_numeral)

text \<open>
  Claim C9. For at least seven long frames, whatever the labels and whatever the
  allocated block holds, \<open>average_musicness\<close> returns as the label at index
  \<open>LONG_FRAME_COUNT - 3\<close> the value the block held there before any write (neither the
  interior loop nor a trailing write assigns it), the labels at \<open>LONG_FRAME_COUNT - 2\<close> and
  \<open>LONG_FRAME_COUNT - 1\<close> are false, and the third trailing write stores false at index
  \<open>LONG_FRAME_COUNT\<close> of the block, one past the last label.
\<close>

theorem unassigned_trailing_label:
  assumes "7 \<le> LONG_FRAME_COUNT g" and "length labels = LONG_FRAME_COUNT g"
  shows "\<exists>out. average_musicness g heap labels = Some out
           \<and> length out = LONG_FRAME_COUNT g
           \<and> out ! (LONG_FRAME_COUNT g - 3) = heap (LONG_FRAME_COUNT g - 3)
           \<and> out ! (LONG_FRAME_COUNT g - 2) = False
           \<and> out ! (LONG_FRAME_COUNT g - 1) = False
           \<and> second_pass g heap labels ! LONG_FRAME_COUNT g = False"
proof -
  let ?n = "LONG_FRAME_COUNT g"
  let ?out = "map (\<lambda>long_frame. second_pass g heap labels ! long_frame) [0 ..< ?n]"
  have a: "average_musicness g heap labels = Some ?out"
    using assms by (simp add: average_musicness_def Let_def)
  have nth_out: "?out ! j = second_pass g heap labels ! j" if "j < ?n" for j
    using that by simp
  have b3: "second_pass g heap labels ! (?n - 3) = heap (?n - 3)"
  proof -
    have "?n - 3 < 2 * ?n" using assms(1) by arith
    from second_pass_nth [OF assms(1) this, of heap labels] show ?thesis
      using assms(1) by (simp split: if_splits) arith
  qed
  have b2: "second_pass g heap labels ! (?n - 2) = False"
  proof -
    have "?n - 2 < 2 * ?n" using assms(1) by arith
    from second_pass_nth [OF assms(1) this, of heap labels] show ?thesis by simp
  qed
  have b1: "second_pass g heap labels ! (?n - 1) = False"
  proof -
    have "?n - 1 < 2 * ?n" using assms(1) by arith
    from second_pass_nth [OF assms(1) this, of heap labels] show ?thesis by simp
  qed
  have d: "second_pass g heap labels ! ?n = False"
  proof -
    have "?n < 2 * ?n" using assms(1) by arith
    from second_pass_nth [OF assms(1) this, of heap labels] show ?thesis by simp
  qed
  have lt: "?n - 3 < ?n" "?n - 2 < ?n" "?n - 1 < ?n" using assms(1) by arith+
  show ?thesis
    using a b3 b2 b1 d nth_out [OF lt(1)] nth_out [OF lt(2)] nth_out [OF lt(3)]
    by (simp del: nth_map_upt nth_map)
qed

theorem unassigned_trailing_label_witness:
  "7 \<le> LONG_FRAME_COUNT (long_frames 7 False)
   \<and> length labels7 = LONG_FRAME_COUNT (long_frames 7 False)
   \<and> (\<exists>out. average_musicness (long_frames 7 False) (\<lambda>_. True) labels7 = Some out
          \<and> out ! 4 = True \<and> out ! 5 = False \<and> out ! 6 = False)
   \<and> second_pass (long_frames 7 False) (\<lambda>_. True) labels7 ! 7 = False"
  using unassigned_trailing_label [of "long_frames 7 False" labels7 "\<lambda>_. True"]
  by (auto simp: long_frames_def labels7_def)

section \<open>The segment merger on concrete label sequences\<close>

lemmas phase1_defs = detect_segments_def detect_step_def long_frames_def
  upt_rec [of _ "numeral _"] upt_rec [of _ "Suc _"]

lemmas phase2_defs = merge_loop_def merge_upto_def merge_step_def current_segment_def
  long_frames_def upt_rec [of _ "numeral _"] upt_rec [of _ "Suc _"] Let_def

lemma detect15:
  "detect_segments (long_frames 15 False) labels15 =
     [\<lparr> startframe = 0, endframe = 11, is_music = True \<rparr>,
      \<lparr> startframe = 12, endframe = 14, is_music = False \<rparr>]"
  by (simp add: phase1_defs labels15_def eval_nat_numeral)

lemma detect30:
  "detect_segments (long_frames 30 True) labels30 =
     [\<lparr> startframe = 0, endframe = 11, is_music = True \<rparr>,
      \<lparr> startframe = 12, endframe = 14, is_music = False \<rparr>,
      \<lparr> startframe = 15, endframe = 26, is_music = True \<rparr>,
      \<lparr> startframe = 27, endframe = 29, is_music = False \<rparr>]"
  by (simp add: phase1_defs labels30_def eval_nat_numeral)

lemma detect19:
  "detect_segments (long_frames 19 True) labels19 =
     [\<lparr> startframe = 0, endframe = 2, is_music = True \<rparr>,
      \<lparr> startframe = 3, endframe = 5, is_music = False \<rparr>,
      \<lparr> startframe = 6, endframe = 15, is_music = True \<rparr>,
      \<lparr> startframe = 16, endframe = 18, is_music = False \<rparr>]"
  by (simp add: phase1_defs labels19_def eval_nat_numeral)

lemma detect17:
  "detect_segments (long_frames 17 False) labels17 =
     [\<lparr> startframe = 0, endframe = 2, is_music = True \<rparr>,
      \<lparr> startframe = 3, endframe = 13, is_music = False \<rparr>,
      \<lparr> startframe = 14, endframe = 16, is_music = True \<rparr>]"
  by (simp add: phase1_defs labels17_def eval_nat_numeral)

lemma merge_upto_Suc:
  "merge_upto g segs storage (Suc k) = merge_step g segs k (merge_upto g segs storage k)"
  by (simp add: merge_upto_def)

text \<open>
  The first \<open>k\<close> iterations of phase 2 read the first \<open>k\<close> runs only, and the loop has
  one iteration less than there are runs: its outcome does not depend on the last run.
\<close>

lemma merge_upto_reads_prefix:
  "(\<And>i. i < k \<Longrightarrow> segs ! i = segs' ! i) \<Longrightarrow>
   merge_upto g segs storage k = merge_upto g segs' storage k"
proof (induction k)
  case 0
  show ?case by (simp add: merge_upto_def)
next
  case (Suc k)
  have prev: "merge_upto g segs storage k = merge_upto g segs' storage k"
    using Suc.prems by (intro Suc.IH) simp
  have same: "segs ! k = segs' ! k" "segs ! 0 = segs' ! 0"
    using Suc.prems by simp_all
  show ?case
    unfolding merge_upto_Suc prev merge_step_def same by (rule refl)
qed

lemma merge_loop_ignores_last_run:
  "merge_loop g (segs @ [s]) storage = merge_loop g (segs @ [s']) storage"
  unfolding merge_loop_def current_segment_def
  by (simp add: merge_upto_reads_prefix [of "length segs" "segs @ [s]" "segs @ [s']"] nth_append)

text \<open>
  Claim C1. The claim has the merged segments, before the growth of the boundaries, cover
  every long frame once. On 15 long frames (12 music, then 3 speech, no intro) phase 1
  finds two runs and leaves \<open>current_segment = 1\<close>, the index of the last one. The loop
  of phase 2 runs while \<open>seg < current_segment\<close>, so it never reaches the last run: it
  ends with \<open>current_merged_segment = 0\<close> and the single merged segment \<open>[0, 11]\<close>; the
  frames 12, 13 and 14 of the final speech run lie in no merged segment. Likewise on 30 long
  frames (12 music, 3 speech, 12 music, 3 speech, with an intro): four runs, the merged
  segments \<open>[0, 14]\<close> and \<open>[15, 26]\<close>, and the frames 27, 28 and 29 in none. Both hold
  for any contents of the storage.
\<close>

theorem last_run_is_not_merged:
  "current_segment (detect_segments (long_frames 15 False) labels15) = 1
   \<and> current_merged_segment
        (merge_loop (long_frames 15 False) (detect_segments (long_frames 15 False) labels15)
           storage) = 0
   \<and> covered_frames
        (merged_segments
           (merge_loop (long_frames 15 False) (detect_segments (long_frames 15 False) labels15)
              storage)) 1
       = [0 .. 11]
   \<and> current_segment (detect_segments (long_frames 30 True) labels30) = 3
   \<and> current_merged_segment
        (merge_loop (long_frames 30 True) (detect_segments (long_frames 30 True) labels30)
           storage) = 1
   \<and> covered_frames
        (merged_segments
           (merge_loop (long_frames 30 True) (detect_segments (long_frames 30 True) labels30)
              storage)) 2
       = [0 .. 26]"
  unfolding detect15 detect30
  by (simp add: phase2_defs covered_frames_def segment_frames_def eval_nat_numeral
      upto.simps [of 0] upto.simps [of 1])

text \<open>
  After every iteration of phase 2 the slot with the index \<open>current_merged_segment\<close>
  holds the end of the run processed last: that slot is written, as are the slots below it.
\<close>

lemma merge_upto_last_end:
  "endframe (merged_segments (merge_upto g segs storage (Suc k))
               (current_merged_segment (merge_upto g segs storage (Suc k))))
   = endframe (segs ! k)"
proof (cases k)
  case 0
  then show ?thesis by (simp add: merge_upto_def merge_step_def Let_def)
next
  case (Suc j)
  show ?thesis
    unfolding Suc merge_upto_Suc [of g segs storage "Suc j"] merge_step_def Let_def by simp
qed

text \<open>
  Claim C5. The claim has the returned integer equal the number of merged segments
  written. On the 15 long frames above \<open>merge_segments\<close> writes one merged segment, into
  slot 0 (start 0 and, after the growth, end 8, whatever the storage held), and returns 0.
  On the 30 long frames above it writes two, into slot 0 and slot 1 (after the growth
  \<open>[0, 17]\<close> speech and \<open>[18, 23]\<close> music), and returns 1. The returned integer is the
  index of the last merged segment.
\<close>

theorem returned_integer_is_last_index:
  "(\<exists>m. merge_segments (long_frames 15 False) labels15 storage = Some (m, 0)
        \<and> m 0 = \<lparr> startframe = 0, endframe = 8, is_music = is_music (storage 0) \<rparr>)
   \<and> (\<exists>m. merge_segments (long_frames 30 True) labels30 storage = Some (m, 1)
        \<and> m 0 = \<lparr> startframe = 0, endframe = 17, is_music = False \<rparr>
        \<and> m 1 = \<lparr> startframe = 18, endframe = 23, is_music = True \<rparr>)"
proof -
  have len15: "\<not> length labels15 < LONG_FRAME_COUNT (long_frames 15 False)"
    by (simp add: labels15_def long_frames_def)
  have len30: "\<not> length labels30 < LONG_FRAME_COUNT (long_frames 30 True)"
    by (simp add: labels30_def long_frames_def)
  have a: "\<exists>m. merge_segments (long_frames 15 False) labels15 storage = Some (m, 0)
        \<and> m 0 = \<lparr> startframe = 0, endframe = 8, is_music = is_music (storage 0) \<rparr>"
    unfolding merge_segments_def detect15 Let_def
    using len15
    by (simp add: phase2_defs grow_segments_def grow_first_def grow_step_def
        GROW_BY_BEFORE_def GROW_BY_AFTER_def eval_nat_numeral)
  have b: "\<exists>m. merge_segments (long_frames 30 True) labels30 storage = Some (m, 1)
        \<and> m 0 = \<lparr> startframe = 0, endframe = 17, is_music = False \<rparr>
        \<and> m 1 = \<lparr> startframe = 18, endframe = 23, is_music = True \<rparr>"
    unfolding merge_segments_def detect30 Let_def
    using len30
    by (simp add: phase2_defs grow_segments_def grow_first_def grow_step_def
        GROW_BY_BEFORE_def GROW_BY_AFTER_def eval_nat_numeral)
  show ?thesis
    using a b by (rule conjI)
qed

section \<open>One iteration of phase 2 after the first\<close>

lemma segment_update_all:
  "r\<lparr> startframe := startframe s, endframe := endframe s, is_music := is_music s \<rparr> = (s::segment)"
  by simp

text \<open>
  Claim C4, as stated, fails. With an intro, on 19 long frames (3 music, 3 speech, 10 music,
  3 speech) the third run has exactly 10 long frames and the label music, while the
  current merged segment has the label speech. By the claim the run is not shorter than 10
  and differs in label, so it starts a new merged segment (\<open>current_merged_segment = 1\<close>).
  The code tests \<open>endframe - startframe = 9 < 10\<close> and absorbs it
  (\<open>current_merged_segment = 0\<close>).
\<close>

theorem run_of_ten_frames_counterexample:
  "run_length (detect_segments (long_frames 19 True) labels19 ! 2) = 10
   \<and> current_merged_segment
        (merge_upto (long_frames 19 True) (detect_segments (long_frames 19 True) labels19)
           (blank_storage False) 3) = 0
   \<and> current_merged_segment
        (merge_run_spec
           (merge_upto (long_frames 19 True) (detect_segments (long_frames 19 True) labels19)
              (blank_storage False) 2)
           (detect_segments (long_frames 19 True) labels19 ! 2)) = 1"
  unfolding detect19
  by (simp add: phase2_defs run_length_def merge_run_spec_def absorb_run_def
      start_merged_segment_def blank_storage_def eval_nat_numeral)

text \<open>
  Claim C4, amended. The iteration of phase 2 for a run other than the first takes the
  state after the earlier iterations to: the state with the run absorbed, when the run has
  at most 10 long frames (\<open>endframe - startframe < 10\<close>), whatever its label; the state
  with the run absorbed, when the run has 11 or more long frames and the label of the
  current merged segment; and otherwise the state with a new merged segment that carries
  the run's start, end and label.
\<close>

theorem merge_step_cases:
  assumes "0 < seg"
  shows "merge_upto g segs storage (Suc seg) =
     (let st = merge_upto g segs storage seg; s = segs ! seg
      in if run_length s \<le> 10 then absorb_run st s
         else if is_music s = is_music (merged_segments st (current_merged_segment st))
         then absorb_run st s
         else start_merged_segment st s)"
  unfolding merge_upto_Suc merge_step_def Let_def segment_update_all
  using assms
  by (simp add: run_length_def absorb_run_def start_merged_segment_def)

theorem merge_step_cases_witness:
  "(0::nat) < 2
   \<and> run_length (detect_segments (long_frames 19 True) labels19 ! 2) = 10
   \<and> merge_upto (long_frames 19 True) (detect_segments (long_frames 19 True) labels19)
        (blank_storage False) (Suc 2)
      = absorb_run
          (merge_upto (long_frames 19 True) (detect_segments (long_frames 19 True) labels19)
             (blank_storage False) 2)
          (detect_segments (long_frames 19 True) labels19 ! 2)"
  using merge_step_cases [of 2 "long_frames 19 True"
      "detect_segments (long_frames 19 True) labels19" "blank_storage False"]
  by (simp add: detect19 run_length_def Let_def)

section \<open>The label of the first merged segment\<close>

lemma merge_step_first_label:
  "\<not> has_intro g \<Longrightarrow>
   is_music (merged_segments (merge_step g segs seg st) 0) = is_music (merged_segments st 0)"
  by (simp add: merge_step_def Let_def)

lemma merge_fold_first_label:
  "\<not> has_intro g \<Longrightarrow>
   is_music (merged_segments (fold (merge_step g segs) is st) 0) = is_music (merged_segments st 0)"
  by (induction "is" arbitrary: st) (simp_all add: merge_step_first_label)

lemma grow_step_label: "is_music (grow_step seg m i) = is_music (m i)"
  by (simp add: grow_step_def)

lemma grow_fold_label: "is_music (fold grow_step is m i) = is_music (m i)"
  by (induction "is" arbitrary: m) (simp_all add: grow_step_label)

lemma grow_segments_label: "is_music (grow_segments g segs m i) = is_music (m i)"
  by (simp add: grow_segments_def grow_fold_label grow_first_def)

lemma merge_step_first_start:
  "0 < seg \<Longrightarrow>
   startframe (merged_segments (merge_step g segs seg st) 0) = startframe (merged_segments st 0)"
  by (simp add: merge_step_def Let_def)

lemma merge_upto_first_start:
  "startframe (merged_segments (merge_upto g segs storage (Suc k)) 0) = startframe (segs ! 0)"
proof (induction k)
  case 0
  show ?case by (simp add: merge_upto_def merge_step_def Let_def)
next
  case (Suc k)
  then show ?case
    using merge_step_first_start [of "Suc k" g segs "merge_upto g segs storage (Suc k)"]
    by (simp add: merge_upto_Suc [of g segs storage "Suc k"])
qed

lemma grow_fold_other: "i \<notin> set is \<Longrightarrow> fold grow_step is m i = m i"
  by (induction "is" arbitrary: m) (auto simp: grow_step_def)

lemma grow_segments_first_start: "startframe (grow_segments g segs m 0) = startframe (m 0)"
proof -
  have "0 \<notin> set [1 ..< current_segment segs]" by simp
  then show ?thesis
    unfolding grow_segments_def by (simp add: grow_fold_other grow_first_def)
qed

text \<open>
  Claim C10. Without an intro, and whatever the labels, the label of slot 0 of the storage
  is after phase 2, and in the storage that \<open>merge_segments\<close> returns, the label the
  caller's storage held in slot 0: no statement assigns it, while the start frame of
  slot 0 is assigned from the first run as soon as phase 2 has an iteration. Phase 2
  compares the labels of the runs with that label, so the outcome follows the storage: on
  17 long frames (3 music, 11 speech, 3 music) a storage with the label music in slot 0
  gives the return value 1, and a storage with the label speech gives 0.
\<close>

theorem first_label_left_to_storage:
  assumes "\<not> has_intro g" and "LONG_FRAME_COUNT g \<le> length labels"
  shows "\<exists>m r. merge_segments g labels storage = Some (m, r)
           \<and> is_music (m 0) = is_music (storage 0)
           \<and> is_music (merged_segments (merge_loop g (detect_segments g labels) storage) 0)
               = is_music (storage 0)
           \<and> (0 < current_segment (detect_segments g labels)
                \<longrightarrow> startframe (m 0) = startframe (detect_segments g labels ! 0))"
proof -
  let ?segs = "detect_segments g labels"
  let ?st = "merge_loop g ?segs storage"
  let ?m = "grow_segments g ?segs (merged_segments ?st)"
  have a: "merge_segments g labels storage = Some (?m, int (current_merged_segment ?st))"
    using assms(2) by (simp add: merge_segments_def Let_def)
  have b: "is_music (merged_segments ?st 0) = is_music (storage 0)"
    using assms(1) by (simp add: merge_loop_def merge_upto_def merge_fold_first_label)
  have c: "is_music (?m 0) = is_music (storage 0)"
    using b by (simp add: grow_segments_label)
  have d: "startframe (?m 0) = startframe (?segs ! 0)" if "0 < current_segment ?segs"
  proof -
    from that obtain k where k: "current_segment ?segs = Suc k"
      by (auto simp: gr0_conv_Suc)
    show ?thesis
      unfolding grow_segments_first_start merge_loop_def k by (rule merge_upto_first_start)
  qed
  show ?thesis
    by (rule exI [of _ ?m], rule exI [of _ "int (current_merged_segment ?st)"])
      (simp add: a b c d)
qed

theorem first_label_left_to_storage_witness:
  "LONG_FRAME_COUNT (long_frames 17 False) \<le> length labels17
   \<and> (\<exists>m. merge_segments (long_frames 17 False) labels17 (blank_storage True) = Some (m, 1)
          \<and> is_music (m 0) = True \<and> startframe (m 0) = 0)
   \<and> (\<exists>m. merge_segments (long_frames 17 False) labels17 (blank_storage False) = Some (m, 0)
          \<and> is_music (m 0) = False \<and> startframe (m 0) = 0)"
proof -
  have h: "\<not> has_intro (long_frames 17 False)"
    "LONG_FRAME_COUNT (long_frames 17 False) \<le> length labels17"
    by (simp_all add: long_frames_def labels17_def)
  have cs: "0 < current_segment (detect_segments (long_frames 17 False) labels17)"
    "startframe (detect_segments (long_frames 17 False) labels17 ! 0) = 0"
    by (simp_all add: detect17 current_segment_def)
  have r1: "map_option snd (merge_segments (long_frames 17 False) labels17 (blank_storage True))
            = Some 1"
    using h(2) unfolding merge_segments_def detect17 Let_def
    by (simp add: phase2_defs blank_storage_def eval_nat_numeral)
  have r0: "map_option snd (merge_segments (long_frames 17 False) labels17 (blank_storage False))
            = Some 0"
    using h(2) unfolding merge_segments_def detect17 Let_def
    by (simp add: phase2_defs blank_storage_def eval_nat_numeral)
  show ?thesis
    using first_label_left_to_storage [OF h, of "blank_storage True"]
      first_label_left_to_storage [OF h, of "blank_storage False"] r1 r0 h(2) cs
    by (auto simp: blank_storage_def)
qed

section \<open>Binary exponents\<close>

lemma log2_nat_bounds: "0 < n \<Longrightarrow> 2 ^ log2_nat n \<le> n \<and> n < 2 ^ Suc (log2_nat n)"
proof (induction n rule: log2_nat.induct)
  case (1 n)
  show ?case
  proof (cases "n < 2")
    case True
    with "1.prems" have "n = 1" by simp
    then show ?thesis by (simp add: log2_nat.simps)
  next
    case False
    then have pos: "0 < n div 2" by simp
    from "1.IH" [OF False pos]
    have ih: "2 ^ log2_nat (n div 2) \<le> n div 2" "n div 2 < 2 ^ Suc (log2_nat (n div 2))"
      by simp_all
    have eq: "log2_nat n = Suc (log2_nat (n div 2))"
      using False by (subst log2_nat.simps) simp
    have a: "2 * 2 ^ log2_nat (n div 2) \<le> n" using ih(1) by arith
    have b: "n < 2 * 2 ^ Suc (log2_nat (n div 2))" using ih(2) by arith
    show ?thesis
      unfolding eq using a b by simp
  qed
qed

lemma log2_nat_bounds_real:
  assumes "0 < n"
  shows "(2::real) ^ log2_nat n \<le> real n" and "real n + 1 \<le> 2 ^ Suc (log2_nat n)"
proof -
  have "real (2 ^ log2_nat n) \<le> real n"
    using log2_nat_bounds [OF assms] by (simp only: of_nat_le_iff)
  then show "(2::real) ^ log2_nat n \<le> real n"
    by (simp only: of_nat_power of_nat_numeral)
  have "Suc n \<le> 2 ^ Suc (log2_nat n)"
    using log2_nat_bounds [OF assms] by (simp only: Suc_leI)
  then have "real (Suc n) \<le> real (2 ^ Suc (log2_nat n))"
    by (simp only: of_nat_le_iff)
  then show "real n + 1 \<le> 2 ^ Suc (log2_nat n)"
    by (simp only: of_nat_power of_nat_numeral of_nat_Suc)
qed

lemma ilog2_bounds:
  assumes "0 < x"
  shows "2 powi ilog2 x \<le> x" and "x < 2 powi (ilog2 x + 1)"
proof -
  have both: "2 powi ilog2 x \<le> x \<and> x < 2 powi (ilog2 x + 1)"
  proof (cases "1 \<le> x")
    case True
    define n where "n = nat \<lfloor>x\<rfloor>"
    have n: "0 < n" using True by (simp add: n_def)
    have nx: "real n \<le> x" "x < real n + 1"
      using True by (simp_all add: n_def)
    have e: "ilog2 x = int (log2_nat n)"
      using True by (simp add: ilog2_def n_def)
    have lo: "2 ^ log2_nat n \<le> x"
      using log2_nat_bounds_real(1) [OF n] nx(1) by linarith
    have hi: "x < 2 ^ Suc (log2_nat n)"
      using log2_nat_bounds_real(2) [OF n] nx(2) by linarith
    have p1: "2 powi ilog2 x = (2::real) ^ log2_nat n"
      unfolding e by simp
    have "ilog2 x + 1 = int (Suc (log2_nat n))" unfolding e by simp
    then have p2: "2 powi (ilog2 x + 1) = (2::real) ^ Suc (log2_nat n)"
      by (simp only: power_int_of_nat)
    show ?thesis unfolding p1 p2 using lo hi by simp
  next
    case False
    define k where "k = \<lceil>1 / x\<rceil>"
    define m where "m = nat (k - 1)"
    have y: "1 < 1 / x" using False assms by simp
    have k: "real_of_int k - 1 < 1 / x" "1 / x \<le> real_of_int k"
      unfolding k_def by linarith+
    have k2: "2 \<le> k" using y k(2) by linarith
    have m: "0 < m" using k2 by (simp add: m_def)
    have mk: "real m = real_of_int k - 1" using k2 by (simp add: m_def)
    have e: "ilog2 x = - int (Suc (log2_nat m))"
      using False by (simp add: ilog2_def m_def k_def)
    have a: "2 ^ log2_nat m < 1 / x"
      using log2_nat_bounds_real(1) [OF m] mk k(1) by linarith
    have pos: "(0::real) < 2 ^ log2_nat m" "(0::real) < 2 ^ Suc (log2_nat m)" by simp_all
    have hi: "x < 1 / 2 ^ log2_nat m"
      using a assms pos(1) by (simp add: field_simps)
    have b: "1 / x \<le> 2 ^ Suc (log2_nat m)"
      using log2_nat_bounds_real(2) [OF m] mk k(2) by linarith
    have lo: "1 / 2 ^ Suc (log2_nat m) \<le> x"
      using b assms pos(2) by (simp add: field_simps)
    have p1: "2 powi ilog2 x = 1 / (2::real) ^ Suc (log2_nat m)"
      unfolding e by (simp only: power_int_minus power_int_of_nat inverse_eq_divide)
    have "ilog2 x + 1 = - int (log2_nat m)" unfolding e by simp
    then have p2: "2 powi (ilog2 x + 1) = 1 / (2::real) ^ log2_nat m"
      by (simp only: power_int_minus power_int_of_nat inverse_eq_divide)
    show ?thesis unfolding p1 p2 using lo hi by simp
  qed
  from both show "2 powi ilog2 x \<le> x" and "x < 2 powi (ilog2 x + 1)" by simp_all
qed

lemma two_powi_mono: "a \<le> b \<Longrightarrow> (2::real) powi a \<le> 2 powi b"
  by (rule power_int_increasing) simp_all

lemma two_powi_less_cancel: "(2::real) powi a < 2 powi b \<Longrightarrow> a < b"
  using two_powi_mono [of b a] by (cases "a < b") simp_all





section \<open>rint\<close>


lemma rint_between: "\<lfloor>x\<rfloor> \<le> rint x \<and> rint x \<le> \<lfloor>x\<rfloor> + 1"
  by (simp add: rint_def Let_def)


lemma rint_ge_int: "real_of_int k \<le> x \<Longrightarrow> k \<le> rint x"
proof -
  assume "real_of_int k \<le> x"
  then have "k \<le> \<lfloor>x\<rfloor>" by (simp add: le_floor_iff)
  then show ?thesis using rint_between [of x] by linarith
qed

section \<open>Rounding\<close>

lemma ulp_pos: "0 < ulp F x"
  by (simp add: ulp_def)



lemma two_powi_diff: "(2::real) powi a / 2 powi b = 2 powi (a - b)"
  by (simp add: power_int_diff)

lemma two_powi_nat: "0 \<le> j \<Longrightarrow> (2::real) powi j = real_of_int (2 ^ nat j)"
  by (simp add: power_int_def)


lemma round_lower_pow2:
  assumes x: "0 < x" "2 powi k \<le> x" and k: "emin F \<le> k" and p: "0 < precision F"
  shows "2 powi k \<le> round_magnitude F x"
proof -
  have "(2::real) powi k < 2 powi (ilog2 x + 1)"
    using x(2) ilog2_bounds(2) [OF x(1)] by (rule le_less_trans)
  then have "k < ilog2 x + 1" by (rule two_powi_less_cancel)
  then have ke: "k \<le> ilog2 x" by simp
  then have e: "max (ilog2 x) (emin F) = ilog2 x" using k by simp
  define j where "j = int (precision F) - 1"
  have j: "0 \<le> j" using p by (simp add: j_def)
  have u: "ulp F x = 2 powi (ilog2 x - int (precision F) + 1)"
    by (simp add: ulp_def e)
  have "2 powi ilog2 x / ulp F x = 2 powi j"
    unfolding u two_powi_diff j_def by (simp add: algebra_simps)
  then have q: "2 powi ilog2 x / ulp F x = real_of_int (2 ^ nat j)"
    using two_powi_nat [OF j] by simp
  have "2 powi ilog2 x / ulp F x \<le> x / ulp F x"
    using ilog2_bounds(1) [OF x(1)] ulp_pos [of F x] by (simp add: divide_right_mono)
  then have "2 ^ nat j \<le> rint (x / ulp F x)"
    unfolding q by (rule rint_ge_int)
  then have "real_of_int (2 ^ nat j) \<le> real_of_int (rint (x / ulp F x))"
    by (simp only: of_int_le_iff)
  then have "(2 powi ilog2 x / ulp F x) * ulp F x \<le> real_of_int (rint (x / ulp F x)) * ulp F x"
    unfolding q using ulp_pos [of F x] by (simp only: mult_le_cancel_right_pos)
  then have "2 powi ilog2 x \<le> round_magnitude F x"
    using ulp_pos [of F x] by (simp add: round_magnitude_def)
  moreover have "(2::real) powi k \<le> 2 powi ilog2 x" using ke by (rule two_powi_mono)
  ultimately show ?thesis by (rule order_trans [rotated])
qed


section \<open>The MLER in IEEE 754 arithmetic\<close>














end
